theory Spec2Isabelle
  imports Complex_Main "HOL-Library.Sublist"
begin

section \<open>The Python runtime that \<open>util/dispense.py\<close> runs on\<close>

text \<open>
  \<open>dispense.py\<close> stores a rewards dictionary as the text file \<open>rewards.csv\<close> and
  reads it back. Its three functions call \<open>os.path\<close>, \<open>open\<close> and the \<open>csv\<close> module,
  so those are modelled first, on a POSIX system: path separator \<open>/\<close>, line separator
  \<open>\n\<close>. Every exception the code can raise is a value of \<open>error\<close>.
\<close>

datatype error =
    AssertionError
  | FileNotFoundError
  | IndexError
  | ValueError
  | OverflowError
  | CsvError
  | ContractError

abbreviation LF :: char where "LF \<equiv> CHR 0x0A"
abbreviation CR :: char where "CR \<equiv> CHR 0x0D"
abbreviation COMMA :: char where "COMMA \<equiv> CHR '',''"
abbreviation QUOTE :: char where "QUOTE \<equiv> CHR 0x22"

subsection \<open>Files\<close>

text \<open>
  The file system maps a path to the text of the regular file stored there.
  Directories and permissions are outside the model: the directory handed to the
  functions is taken to exist and to be writable.
\<close>

type_synonym filesystem = "string \<rightharpoonup> string"

definition os_path_exists :: "filesystem \<Rightarrow> string \<Rightarrow> bool" where
  "os_path_exists fs p = (fs p \<noteq> None)"

text \<open>\<open>posixpath.join\<close> on two components.\<close>

definition os_path_join :: "string \<Rightarrow> string \<Rightarrow> string" where
  "os_path_join a b =
     (if b \<noteq> [] \<and> hd b = CHR ''/'' then b
      else if a = [] \<or> last a = CHR ''/'' then a @ b
      else a @ ''/'' @ b)"

text \<open>
  A file opened with \<open>open(p, 'r')\<close> is read with universal newlines: \<open>\r\n\<close> and a
  lone \<open>\r\<close> both arrive as \<open>\n\<close>. Opened with \<open>open(p, 'w')\<close>, the text is stored
  as written.
\<close>

fun translate_newlines :: "string \<Rightarrow> string" where
  "translate_newlines [] = []"
| "translate_newlines [c] = [if c = CR then LF else c]"
| "translate_newlines (c # d # cs) =
     (if c = CR \<and> d = LF then LF # translate_newlines cs
      else (if c = CR then LF else c) # translate_newlines (d # cs))"

text \<open>Iterating over a text file yields its lines, each with its terminating \<open>\n\<close>.\<close>

fun lines_from :: "string \<Rightarrow> string \<Rightarrow> string list" where
  "lines_from cur [] = (if cur = [] then [] else [cur])"
| "lines_from cur (c # cs) =
     (if c = LF then (cur @ [c]) # lines_from [] cs else lines_from (cur @ [c]) cs)"

definition file_lines :: "string \<Rightarrow> string list" where
  "file_lines content = lines_from [] (translate_newlines content)"

subsection \<open>\<open>csv.writer\<close>, default dialect\<close>

text \<open>
  The default dialect is \<open>excel\<close>: delimiter \<open>,\<close>, quote character \<open>"\<close>, doubled
  quotes, line terminator \<open>\r\n\<close>, minimal quoting. A field is quoted when it holds
  the delimiter, the quote character or a character of the line terminator; a quote
  inside it is doubled. A row made of one empty field is written as \<open>""\<close>.
\<close>

definition special :: "char \<Rightarrow> bool" where
  "special c = (c = COMMA \<or> c = QUOTE \<or> c = CR \<or> c = LF)"

fun double_quotes :: "string \<Rightarrow> string" where
  "double_quotes [] = []"
| "double_quotes (c # cs) = (if c = QUOTE then [QUOTE, QUOTE] else [c]) @ double_quotes cs"

definition join_append :: "string \<Rightarrow> string" where
  "join_append f =
     (if \<exists>c \<in> set f. special c then [QUOTE] @ double_quotes f @ [QUOTE] else f)"

fun join_fields :: "string list \<Rightarrow> string" where
  "join_fields [] = []"
| "join_fields [f] = join_append f"
| "join_fields (f # g # fs) = join_append f @ [COMMA] @ join_fields (g # fs)"

definition csv_writerow :: "string list \<Rightarrow> string" where
  "csv_writerow row =
     (if row = [[]] then [QUOTE, QUOTE] else join_fields row) @ [CR, LF]"

subsection \<open>\<open>csv.reader\<close>, default dialect\<close>

text \<open>
  The reader is the state machine of CPython's \<open>_csv\<close> module. With the default
  dialect there is no escape character, no skipping of initial spaces and no strict
  mode, so the states for escapes are never entered and are left out. A field may
  hold at most \<open>field_limit\<close> characters.
\<close>

datatype parser_state =
    START_RECORD | START_FIELD | IN_FIELD | IN_QUOTED_FIELD | QUOTE_IN_QUOTED_FIELD | EAT_CRNL

record reader =
  r_state :: parser_state
  r_field :: string
  r_fields :: "string list"

definition field_limit :: nat where
  "field_limit = 131072"

definition parse_reset :: reader where
  "parse_reset = \<lparr>r_state = START_RECORD, r_field = [], r_fields = []\<rparr>"

definition parse_save_field :: "reader \<Rightarrow> reader" where
  "parse_save_field r = r\<lparr>r_fields := r_fields r @ [r_field r], r_field := []\<rparr>"

definition parse_add_char :: "reader \<Rightarrow> char \<Rightarrow> error + reader" where
  "parse_add_char r c =
     (if length (r_field r) \<ge> field_limit then Inl CsvError
      else Inr (r\<lparr>r_field := r_field r @ [c]\<rparr>))"

text \<open>The end of a line is the input \<open>None\<close>; a character \<open>c\<close> is \<open>Some c\<close>.\<close>

definition end_of_field :: "reader \<Rightarrow> char option \<Rightarrow> error + reader" where
  "end_of_field r c =
     Inr ((parse_save_field r)\<lparr>r_state := (if c = None then START_RECORD else EAT_CRNL)\<rparr>)"

definition is_newline :: "char option \<Rightarrow> bool" where
  "is_newline c = (c = Some LF \<or> c = Some CR \<or> c = None)"

definition start_field :: "reader \<Rightarrow> char option \<Rightarrow> error + reader" where
  "start_field r c =
     (if is_newline c then end_of_field r c
      else if c = Some QUOTE then Inr (r\<lparr>r_state := IN_QUOTED_FIELD\<rparr>)
      else if c = Some COMMA then Inr ((parse_save_field r)\<lparr>r_state := START_FIELD\<rparr>)
      else (case parse_add_char r (the c) of
              Inl e \<Rightarrow> Inl e
            | Inr r' \<Rightarrow> Inr (r'\<lparr>r_state := IN_FIELD\<rparr>)))"

fun parse_process_char :: "reader \<Rightarrow> char option \<Rightarrow> error + reader" where
  "parse_process_char r c =
     (case r_state r of
        START_RECORD \<Rightarrow>
          (if c = None then Inr r
           else if c = Some LF \<or> c = Some CR then Inr (r\<lparr>r_state := EAT_CRNL\<rparr>)
           else start_field r c)
      | START_FIELD \<Rightarrow> start_field r c
      | IN_FIELD \<Rightarrow>
          (if is_newline c then end_of_field r c
           else if c = Some COMMA then Inr ((parse_save_field r)\<lparr>r_state := START_FIELD\<rparr>)
           else parse_add_char r (the c))
      | IN_QUOTED_FIELD \<Rightarrow>
          (if c = None then Inr r
           else if c = Some QUOTE then Inr (r\<lparr>r_state := QUOTE_IN_QUOTED_FIELD\<rparr>)
           else parse_add_char r (the c))
      | QUOTE_IN_QUOTED_FIELD \<Rightarrow>
          (if c = Some QUOTE then
             (case parse_add_char r QUOTE of
                Inl e \<Rightarrow> Inl e
              | Inr r' \<Rightarrow> Inr (r'\<lparr>r_state := IN_QUOTED_FIELD\<rparr>))
           else if c = Some COMMA then Inr ((parse_save_field r)\<lparr>r_state := START_FIELD\<rparr>)
           else if is_newline c then end_of_field r c
           else (case parse_add_char r (the c) of
                   Inl e \<Rightarrow> Inl e
                 | Inr r' \<Rightarrow> Inr (r'\<lparr>r_state := IN_FIELD\<rparr>)))
      | EAT_CRNL \<Rightarrow>
          (if c = Some LF \<or> c = Some CR then Inr r
           else if c = None then Inr (r\<lparr>r_state := START_RECORD\<rparr>)
           else Inl CsvError))"

text \<open>One line: its characters in order, then the end of the line.\<close>

fun feed :: "reader \<Rightarrow> string \<Rightarrow> error + reader" where
  "feed r [] = Inr r"
| "feed r (c # cs) =
     (case parse_process_char r (Some c) of Inl e \<Rightarrow> Inl e | Inr r' \<Rightarrow> feed r' cs)"

definition process_line :: "reader \<Rightarrow> string \<Rightarrow> error + reader" where
  "process_line r l =
     (case feed r l of Inl e \<Rightarrow> Inl e | Inr r' \<Rightarrow> parse_process_char r' None)"

text \<open>
  The reader is an iterator: each step takes lines until a record is complete. The
  model returns the rows it yields, in order, and the exception that ends the
  iteration, if one does; the rows before it have been handed to the loop body by
  then. When the lines run out inside a quoted field, what was read is the last row.
\<close>

fun csv_reader_from :: "reader \<Rightarrow> string list \<Rightarrow> string list list \<times> error option" where
  "csv_reader_from r [] =
     (if r_field r \<noteq> [] \<or> r_state r = IN_QUOTED_FIELD
      then ([r_fields (parse_save_field r)], None) else ([], None))"
| "csv_reader_from r (l # ls) =
     (case process_line r l of
        Inl e \<Rightarrow> ([], Some e)
      | Inr r' \<Rightarrow>
          if r_state r' = START_RECORD
          then (let (rows, e) = csv_reader_from parse_reset ls in (r_fields r' # rows, e))
          else csv_reader_from r' ls)"

definition csv_reader :: "string list \<Rightarrow> string list list \<times> error option" where
  "csv_reader ls = csv_reader_from parse_reset ls"

subsection \<open>The reader on the stream of characters\<close>



section \<open>\<open>util/dispense.py\<close>\<close>

text \<open>
  The float operations and \<open>toBase18\<close> (of \<open>util/base18.py\<close>) are parameters of the
  model: \<open>str_value\<close> is \<open>str\<close> on a reward value, \<open>float_of\<close> is \<open>float\<close> on a string
  (\<open>None\<close> when it raises \<open>ValueError\<close>), and \<open>toBase18\<close> may raise.
\<close>

definition rewardsPathToFile :: "string \<Rightarrow> string" where
  "rewardsPathToFile path = os_path_join path ''rewards.csv''"

text \<open>
  A rewards dictionary is the list of its items in iteration order.
  \<open>rewardsToCsv\<close> returns the file system after the call and the exception it
  raised, if any. The \<open>assert\<close> is enabled, and the message printed at the end is not
  modelled.
\<close>

definition rewardsToCsv ::
  "('v \<Rightarrow> string) \<Rightarrow> (string \<times> 'v) list \<Rightarrow> string \<Rightarrow> filesystem \<Rightarrow>
   filesystem \<times> error option" where
  "rewardsToCsv str_value rewards csv_dir fs =
     (let csv_file = rewardsPathToFile csv_dir in
      if os_path_exists fs csv_file then (fs, Some AssertionError)
      else (fs(csv_file \<mapsto>
              csv_writerow [''address'', ''value''] @
              concat (map (\<lambda>(to_addr, v). csv_writerow [to_addr, str_value v]) rewards)),
            None))"


type_synonym 'f rewards_lists = "string list \<times> 'f list \<times> int list"

text \<open>The body of the loop over \<open>enumerate(reader)\<close>, on the rows the reader yields.\<close>

fun rows_loop ::
  "(string \<Rightarrow> 'f option) \<Rightarrow> ('f \<Rightarrow> error + int) \<Rightarrow> nat \<Rightarrow> string list list \<Rightarrow>
   'f rewards_lists \<Rightarrow> error + 'f rewards_lists" where
  "rows_loop float_of toBase18 row_i [] acc = Inr acc"
| "rows_loop float_of toBase18 row_i (row # rows) (tos, values_float, values_int) =
     (if row_i = 0 then rows_loop float_of toBase18 (Suc row_i) rows (tos, values_float, values_int)
      else (case row of
              to # s # _ \<Rightarrow>
                (case float_of s of
                   None \<Rightarrow> Inl ValueError
                 | Some value_float \<Rightarrow>
                     (case toBase18 value_float of
                        Inl e \<Rightarrow> Inl e
                      | Inr value_int \<Rightarrow>
                          rows_loop float_of toBase18 (Suc row_i) rows
                            (tos @ [to], values_float @ [value_float], values_int @ [value_int])))
            | _ \<Rightarrow> Inl IndexError))"

definition csvToRewardsLists ::
  "(string \<Rightarrow> 'f option) \<Rightarrow> ('f \<Rightarrow> error + int) \<Rightarrow> string \<Rightarrow> filesystem \<Rightarrow>
   error + 'f rewards_lists" where
  "csvToRewardsLists float_of toBase18 csv_dir fs =
     (case fs (rewardsPathToFile csv_dir) of
        None \<Rightarrow> Inl FileNotFoundError
      | Some content \<Rightarrow>
          (let (rows, stop) = csv_reader (file_lines content) in
           case rows_loop float_of toBase18 0 rows ([], [], []) of
             Inl e \<Rightarrow> Inl e
           | Inr out \<Rightarrow> (case stop of Some e \<Rightarrow> Inl e | None \<Rightarrow> Inr out)))"

text \<open>
  \<open>dispenseRewards\<close> talks to two contracts. The chain is outside the repository, so
  it is a pair of parameters: \<open>getToken\<close> answers the airdrop contract's \<open>getToken()\<close>
  (\<open>None\<close> when there is no such contract), and \<open>mined\<close> says whether a transaction
  succeeds after the ones before it. The function returns the transactions that were
  mined, in order, and the exception that stopped it, if any.
\<close>

datatype 'a tx =
    Approve string string int 'a
  | Allocate string "string list" "int list" 'a

definition dispenseRewards ::
  "(string \<Rightarrow> 'f option) \<Rightarrow> ('f \<Rightarrow> error + int) \<Rightarrow> (string \<Rightarrow> string option) \<Rightarrow>
   ('a tx list \<Rightarrow> 'a tx \<Rightarrow> bool) \<Rightarrow> string \<Rightarrow> string \<Rightarrow> 'a \<Rightarrow> filesystem \<Rightarrow>
   'a tx list \<times> error option" where
  "dispenseRewards float_of toBase18 getToken mined csv_dir airdrop_addr from_account fs =
     (case csvToRewardsLists float_of toBase18 csv_dir fs of
        Inl e \<Rightarrow> ([], Some e)
      | Inr (tos, _, values_int) \<Rightarrow>
          (case getToken airdrop_addr of
             None \<Rightarrow> ([], Some ContractError)
           | Some TOK \<Rightarrow>
               (let approve = Approve TOK airdrop_addr (sum_list values_int) from_account;
                    allocate = Allocate airdrop_addr tos values_int from_account
                in if \<not> mined [] approve then ([], Some ContractError)
                   else if \<not> mined [approve] allocate then ([approve], Some ContractError)
                   else ([approve, allocate], None))))"

subsection \<open>Exact decimals in place of floats\<close>

text \<open>
  To run the model, the float parameters are instantiated with exact decimal
  arithmetic on rationals: \<open>decimal_of\<close> reads an unsigned literal such as \<open>12\<close> or
  \<open>1.5\<close>, and \<open>str_whole\<close> prints a whole number.
\<close>

definition is_digit :: "char \<Rightarrow> bool" where
  "is_digit c = (48 \<le> (of_char c :: nat) \<and> (of_char c :: nat) \<le> 57)"

fun digits_value :: "nat \<Rightarrow> string \<Rightarrow> nat" where
  "digits_value acc [] = acc"
| "digits_value acc (c # cs) = digits_value (10 * acc + (of_char c - 48)) cs"

definition decimal_of :: "string \<Rightarrow> rat option" where
  "decimal_of s =
     (let whole = takeWhile (\<lambda>c. c \<noteq> CHR ''.'') s;
          frac = drop 1 (dropWhile (\<lambda>c. c \<noteq> CHR ''.'') s)
      in if whole = [] \<or> \<not> list_all is_digit (whole @ frac) then None
         else Some (of_nat (digits_value 0 (whole @ frac)) / of_nat (10 ^ length frac)))"

fun digits_of :: "nat \<Rightarrow> nat \<Rightarrow> string" where
  "digits_of 0 n = []"
| "digits_of (Suc k) n =
     (if n < 10 then [char_of (48 + n)] else digits_of k (n div 10) @ [char_of (48 + n mod 10)])"

definition str_whole :: "rat \<Rightarrow> string" where
  "str_whole v = digits_of 40 (nat \<lfloor>v\<rfloor>)"

text \<open>
  Modelled from the spec: \<open>toBase18\<close> of \<open>util/base18.py\<close>, which is not among the
  sources. The spec gives it as the amount times \<open>10^18\<close>, rounded to the nearest
  integer, halves to the even one.
\<close>

definition round_half_even :: "rat \<Rightarrow> int" where
  "round_half_even y =
     (let f = \<lfloor>y\<rfloor>; d = y - of_int f
      in if d < 1 / 2 then f else if 1 / 2 < d then f + 1 else if even f then f else f + 1)"

definition toBase18_spec :: "rat \<Rightarrow> error + int" where
  "toBase18_spec amt = Inr (round_half_even (amt * 10 ^ 18))"

subsection \<open>Sample inputs\<close>

definition one_token :: "string \<Rightarrow> string option" where
  "one_token airdrop_addr = Some ''0xT0''"

definition always_mined :: "unit tx list \<Rightarrow> unit tx \<Rightarrow> bool" where
  "always_mined history t = True"

definition duplicate_file :: filesystem where
  "duplicate_file = [''d/rewards.csv'' \<mapsto>
     ''address,value'' @ [CR, LF] @ ''0xA,1.5'' @ [CR, LF] @ ''0xA,2'' @ [CR, LF]]"

definition empty_file :: filesystem where
  "empty_file = [''d/rewards.csv'' \<mapsto> []]"

definition header_only_file :: filesystem where
  "header_only_file = [''d/rewards.csv'' \<mapsto> ''address,value'' @ [CR, LF]]"

definition headless_file :: filesystem where
  "headless_file = [''d/rewards.csv'' \<mapsto> ''0xA,1.5'' @ [CR, LF] @ ''0xB,2'' @ [CR, LF]]"




section \<open>\<open>util/blockrange.py\<close>\<close>

text \<open>
  Modelled from the spec: the class \<open>BlockRange\<close> of \<open>util/blockrange.py\<close>, which is
  not among the sources; only its tests are. The spec's section 4.1 gives the
  contract. A negative argument is reported before the order of the bounds is
  looked at: the spec lists \<open>getBlocks(1, -1, 5)\<close> among the calls that raise
  \<open>InvalidArgumentError\<close>, although its end precedes its start.
\<close>

datatype range_error = InvalidRangeError | InvalidArgumentError

record block_range =
  br_st :: int
  br_fin :: int
  br_num_samples :: int

definition BlockRange :: "int \<Rightarrow> int \<Rightarrow> int \<Rightarrow> range_error + block_range" where
  "BlockRange st fin num_samples =
     (if st < 0 \<or> fin < 0 \<or> num_samples < 0 then Inl InvalidArgumentError
      else if fin < st then Inl InvalidRangeError
      else Inr \<lparr>br_st = st, br_fin = fin, br_num_samples = num_samples\<rparr>)"

text \<open>
  Modelled from the spec: drawing \<open>k\<close> heights from the interval without replacement.
  The randomness source \<open>rnd\<close> gives the \<open>i\<close>-th raw draw; it is reduced to an index
  into the heights not drawn yet, and the height there is taken out.
\<close>

fun draw :: "(nat \<Rightarrow> nat) \<Rightarrow> nat \<Rightarrow> int list \<Rightarrow> nat \<Rightarrow> int list" where
  "draw rnd i pool 0 = []"
| "draw rnd i pool (Suc k) =
     (if pool = [] then []
      else (let j = rnd i mod length pool
            in pool ! j # draw rnd (Suc i) (take j pool @ drop (Suc j) pool) k))"

text \<open>
  Modelled from the spec: \<open>getBlocks\<close>, the three cases of section 4.1 in the spec's
  order.
\<close>

definition getBlocks :: "(nat \<Rightarrow> nat) \<Rightarrow> block_range \<Rightarrow> int list" where
  "getBlocks rnd r =
     (let available = br_fin r - br_st r + 1 in
      if br_num_samples r = 0 then []
      else if br_num_samples r \<ge> available then [br_st r..br_fin r]
      else sort (draw rnd 0 [br_st r..br_fin r] (nat (br_num_samples r))))"

text \<open>
  Modelled from the spec: the spec's \<open>getBlocks(start, end, sampleCount)\<close>, which is
  the constructor followed by the method.
\<close>

definition sample_blocks :: "(nat \<Rightarrow> nat) \<Rightarrow> int \<Rightarrow> int \<Rightarrow> int \<Rightarrow> range_error + int list" where
  "sample_blocks rnd st fin num_samples =
     (case BlockRange st fin num_samples of
        Inl e \<Rightarrow> Inl e
      | Inr r \<Rightarrow> Inr (getBlocks rnd r))"

text \<open>A fixed randomness source to run the model on.\<close>

definition counting :: "nat \<Rightarrow> nat" where
  "counting i = 7 * i + 3"

section \<open>Properties of \<open>util/dispense.py\<close>\<close>

lemmas run_defs =
  csvToRewardsLists_def rewardsPathToFile_def os_path_join_def csv_reader_def file_lines_def
  process_line_def parse_reset_def parse_save_field_def parse_add_char_def end_of_field_def
  is_newline_def start_field_def field_limit_def decimal_of_def toBase18_spec_def
  round_half_even_def is_digit_def

subsection \<open>The loop over the rows\<close>

text \<open>
  Past the first row the loop appends one entry per row: the first field as the
  address, the second parsed and converted. It returns only if every row has two
  fields at least.
\<close>

lemma rows_loop_data:
  "0 < i \<Longrightarrow> rows_loop float_of toBase18 i rows (tos, vf, vi) = Inr (tos', vf', vi') \<Longrightarrow>
   tos' = tos @ map hd rows \<and>
   map Some vf' = map Some vf @ map (\<lambda>row. float_of (row ! 1)) rows \<and>
   map Inr vi' = map Inr vi @ map (\<lambda>row. toBase18 (the (float_of (row ! 1)))) rows \<and>
   (\<forall>row \<in> set rows. 2 \<le> length row)"
proof (induction rows arbitrary: i tos vf vi)
  case Nil
  then show ?case by simp
next
  case (Cons row rows)
  from Cons.prems obtain to s rest where row: "row = to # s # rest"
    by (auto split: list.splits)
  from Cons.prems row obtain x where x: "float_of s = Some x"
    by (auto split: option.splits)
  from Cons.prems row x obtain n where n: "toBase18 x = Inr n"
    by (auto split: sum.splits)
  from Cons.prems row x n
  have "rows_loop float_of toBase18 (Suc i) rows (tos @ [to], vf @ [x], vi @ [n]) = Inr (tos', vf', vi')"
    by simp
  from Cons.IH[OF _ this] show ?case
    using row x n by simp
qed

lemma rows_loop_lengths:
  "0 < i \<Longrightarrow> rows_loop float_of toBase18 i rows (tos, vf, vi) = Inr (tos', vf', vi') \<Longrightarrow>
   length tos' = length tos + length rows \<and> length vf' = length vf + length rows \<and>
   length vi' = length vi + length rows"
  using rows_loop_data[of i float_of toBase18 rows tos vf vi tos' vf' vi']
  by (metis length_append length_map)

lemma rows_loop_skip:
  "rows_loop float_of toBase18 0 rows acc = rows_loop float_of toBase18 1 (drop 1 rows) acc"
  by (cases rows; cases acc) (simp_all add: prod_cases3)

lemma csvToRewardsLists_rows:
  "fs (rewardsPathToFile csv_dir) = Some content \<Longrightarrow>
   csv_reader (file_lines content) = (rows, stop) \<Longrightarrow>
   csvToRewardsLists float_of toBase18 csv_dir fs =
     (case rows_loop float_of toBase18 1 (drop 1 rows) ([], [], []) of
        Inl e \<Rightarrow> Inl e
      | Inr out \<Rightarrow> (case stop of Some e \<Rightarrow> Inl e | None \<Rightarrow> Inr out))"
  by (simp add: csvToRewardsLists_def rows_loop_skip)

lemma csvToRewardsLists_Inr:
  assumes "fs (rewardsPathToFile csv_dir) = Some content"
      and "csv_reader (file_lines content) = (rows, stop)"
      and "csvToRewardsLists float_of toBase18 csv_dir fs = Inr (tos, vf, vi)"
  shows "rows_loop float_of toBase18 1 (drop 1 rows) ([], [], []) = Inr (tos, vf, vi) \<and> stop = None"
  using assms
  by (auto simp: csvToRewardsLists_def rows_loop_skip split: sum.splits option.splits)

subsection \<open>Writing never overwrites\<close>

text \<open>
  Claim C6. \<open>rewardsToCsv\<close> fails with the assertion whenever \<open>rewards.csv\<close> already
  exists in the directory, and then the file system, the existing file included, is
  what it was. When it succeeds the file did not exist before, and no other file has
  changed.
\<close>

theorem rewardsToCsv_never_overwrites:
  "(os_path_exists fs (rewardsPathToFile csv_dir) \<longrightarrow>
      rewardsToCsv str_value rewards csv_dir fs = (fs, Some AssertionError)) \<and>
   (snd (rewardsToCsv str_value rewards csv_dir fs) = None \<longrightarrow>
      \<not> os_path_exists fs (rewardsPathToFile csv_dir) \<and>
      (\<forall>p. p \<noteq> rewardsPathToFile csv_dir \<longrightarrow>
         fst (rewardsToCsv str_value rewards csv_dir fs) p = fs p))"
  by (simp add: rewardsToCsv_def Let_def)

theorem rewardsToCsv_never_overwrites_witness:
  "os_path_exists duplicate_file (rewardsPathToFile ''d'') \<and>
   rewardsToCsv str_whole [(''0xB'', 7)] ''d'' duplicate_file = (duplicate_file, Some AssertionError) \<and>
   snd (rewardsToCsv str_whole [(''0xB'', 7)] ''e'' duplicate_file) = None \<and>
   \<not> os_path_exists duplicate_file (rewardsPathToFile ''e'') \<and>
   fst (rewardsToCsv str_whole [(''0xB'', 7)] ''e'' duplicate_file) ''d/rewards.csv'' =
     duplicate_file ''d/rewards.csv''"
proof -
  have ex: "os_path_exists duplicate_file (rewardsPathToFile ''d'')"
    by (simp add: os_path_exists_def duplicate_file_def rewardsPathToFile_def os_path_join_def)
  have ok: "snd (rewardsToCsv str_whole [(''0xB'', 7)] ''e'' duplicate_file) = None"
    by (simp add: rewardsToCsv_def os_path_exists_def duplicate_file_def rewardsPathToFile_def
        os_path_join_def)
  have ne: "''d/rewards.csv'' \<noteq> rewardsPathToFile ''e''"
    by (simp add: rewardsPathToFile_def os_path_join_def)
  from rewardsToCsv_never_overwrites[of duplicate_file "''d''" str_whole "[(''0xB'', 7)]"]
       rewardsToCsv_never_overwrites[of duplicate_file "''e''" str_whole "[(''0xB'', 7)]"]
       ex ok ne
  show ?thesis by blast
qed

subsection \<open>A file with a repeated address, run\<close>

lemma duplicate_file_lists:
  "csvToRewardsLists decimal_of toBase18_spec ''d'' duplicate_file =
     Inr ([''0xA'', ''0xA''], [3 / 2, 2], [1500000000000000000, 2000000000000000000])"
  unfolding duplicate_file_def by (simp add: run_defs)

lemma duplicate_file_dispense:
  "dispenseRewards decimal_of toBase18_spec one_token always_mined ''d'' ''0xD1'' () duplicate_file =
     ([Approve ''0xT0'' ''0xD1'' 3500000000000000000 (),
       Allocate ''0xD1'' [''0xA'', ''0xA''] [1500000000000000000, 2000000000000000000] ()], None)"
  by (simp add: dispenseRewards_def duplicate_file_lists one_token_def always_mined_def)

subsection \<open>What is approved is what is allocated\<close>

text \<open>
  Claim C8. Whatever the rewards file holds: if \<open>dispenseRewards\<close> sends an
  \<open>allocate\<close> of the amounts \<open>vs\<close>, the one transaction before it is the \<open>approve\<close> of
  exactly \<open>sum_list vs\<close> for the same contract and sender, and \<open>vs\<close> is the list
  \<open>values_int\<close> read from the file; an \<open>approve\<close> that is sent carries the sum of that
  list; and a run that ends without exception has sent both, in this order.
\<close>

theorem dispenseRewards_approves_exact_sum:
  assumes "dispenseRewards float_of toBase18 getToken mined csv_dir airdrop_addr from_account fs = (txs, err)"
  shows "(\<forall>a tos vs s. Allocate a tos vs s \<in> set txs \<longrightarrow>
            (\<exists>TOK. txs = [Approve TOK a (sum_list vs) s, Allocate a tos vs s]) \<and>
            (\<exists>vf. csvToRewardsLists float_of toBase18 csv_dir fs = Inr (tos, vf, vs))) \<and>
         (\<forall>TOK spender amount s. Approve TOK spender amount s \<in> set txs \<longrightarrow>
            (\<exists>tos vf vs. csvToRewardsLists float_of toBase18 csv_dir fs = Inr (tos, vf, vs) \<and>
               amount = sum_list vs)) \<and>
         (err = None \<longrightarrow>
            (\<exists>TOK tos vf vs. csvToRewardsLists float_of toBase18 csv_dir fs = Inr (tos, vf, vs) \<and>
               txs = [Approve TOK airdrop_addr (sum_list vs) from_account,
                      Allocate airdrop_addr tos vs from_account]))"
  using assms
  by (auto simp: dispenseRewards_def Let_def split: sum.splits option.splits if_splits prod.splits)

theorem dispenseRewards_approves_exact_sum_witness:
  "dispenseRewards decimal_of toBase18_spec one_token always_mined ''d'' ''0xD1'' () duplicate_file =
     ([Approve ''0xT0'' ''0xD1'' 3500000000000000000 (),
       Allocate ''0xD1'' [''0xA'', ''0xA''] [1500000000000000000, 2000000000000000000] ()], None) \<and>
   (\<exists>TOK tos vf vs.
      csvToRewardsLists decimal_of toBase18_spec ''d'' duplicate_file = Inr (tos, vf, vs) \<and>
      [Approve ''0xT0'' ''0xD1'' 3500000000000000000 (),
       Allocate ''0xD1'' [''0xA'', ''0xA''] [1500000000000000000, 2000000000000000000] ()] =
      [Approve TOK ''0xD1'' (sum_list vs) (), Allocate ''0xD1'' tos vs ()])"
  using dispenseRewards_approves_exact_sum[OF duplicate_file_dispense] duplicate_file_dispense
  by blast

subsection \<open>The first row is skipped unread\<close>

text \<open>
  Claim C10. \<open>csvToRewardsLists\<close> drops the first row the reader yields whatever it
  holds: the result is the loop run on the rows after the first. For an empty file
  and for a file of one row the three lists are empty. Whenever lists are returned,
  they have one entry per row after the first, so a data row in first place is
  missing from them.
\<close>

theorem csvToRewardsLists_first_row_discarded:
  assumes "fs (rewardsPathToFile csv_dir) = Some content"
      and "csv_reader (file_lines content) = (rows, stop)"
  shows "csvToRewardsLists float_of toBase18 csv_dir fs =
           (case rows_loop float_of toBase18 1 (drop 1 rows) ([], [], []) of
              Inl e \<Rightarrow> Inl e
            | Inr out \<Rightarrow> (case stop of Some e \<Rightarrow> Inl e | None \<Rightarrow> Inr out)) \<and>
         (length rows \<le> 1 \<and> stop = None \<longrightarrow>
            csvToRewardsLists float_of toBase18 csv_dir fs = Inr ([], [], [])) \<and>
         (\<forall>tos vf vi. csvToRewardsLists float_of toBase18 csv_dir fs = Inr (tos, vf, vi) \<longrightarrow>
            tos = map hd (drop 1 rows) \<and>
            map Some vf = map (\<lambda>row. float_of (row ! 1)) (drop 1 rows) \<and>
            length vi = length rows - 1)"
proof (intro conjI allI impI)
  show eq: "csvToRewardsLists float_of toBase18 csv_dir fs =
           (case rows_loop float_of toBase18 1 (drop 1 rows) ([], [], []) of
              Inl e \<Rightarrow> Inl e
            | Inr out \<Rightarrow> (case stop of Some e \<Rightarrow> Inl e | None \<Rightarrow> Inr out))"
    using assms by (rule csvToRewardsLists_rows)
  show "csvToRewardsLists float_of toBase18 csv_dir fs = Inr ([], [], [])"
    if "length rows \<le> 1 \<and> stop = None"
    using that unfolding eq by simp
next
  fix tos vf vi
  assume "csvToRewardsLists float_of toBase18 csv_dir fs = Inr (tos, vf, vi)"
  from csvToRewardsLists_Inr[OF assms this]
  have loop: "rows_loop float_of toBase18 1 (drop 1 rows) ([], [], []) = Inr (tos, vf, vi)"
    by simp
  from rows_loop_data[OF _ loop] show "tos = map hd (drop 1 rows)"
    and "map Some vf = map (\<lambda>row. float_of (row ! 1)) (drop 1 rows)"
    by simp_all
  from rows_loop_lengths[OF _ loop] show "length vi = length rows - 1"
    by simp
qed

text \<open>A file whose first row is a data row: only the second row is returned.\<close>

lemma headless_file_rows:
  "csv_reader (file_lines (''0xA,1.5'' @ [CR, LF] @ ''0xB,2'' @ [CR, LF])) =
     ([[''0xA'', ''1.5''], [''0xB'', ''2'']], None)"
  by (simp add: run_defs)

theorem csvToRewardsLists_first_row_discarded_witness:
  "headless_file (rewardsPathToFile ''d'') = Some (''0xA,1.5'' @ [CR, LF] @ ''0xB,2'' @ [CR, LF]) \<and>
   csv_reader (file_lines (''0xA,1.5'' @ [CR, LF] @ ''0xB,2'' @ [CR, LF])) =
     ([[''0xA'', ''1.5''], [''0xB'', ''2'']], None) \<and>
   csvToRewardsLists decimal_of toBase18_spec ''d'' headless_file =
     Inr ([''0xB''], [2], [2000000000000000000]) \<and>
   csv_reader (file_lines (''address,value'' @ [CR, LF])) = ([[''address'', ''value'']], None) \<and>
   csvToRewardsLists decimal_of toBase18_spec ''d'' header_only_file = Inr ([], [], []) \<and>
   csv_reader (file_lines []) = ([], None) \<and>
   csvToRewardsLists decimal_of toBase18_spec ''d'' empty_file = Inr ([], [], [])"
proof -
  have stored: "headless_file (rewardsPathToFile ''d'') =
      Some (''0xA,1.5'' @ [CR, LF] @ ''0xB,2'' @ [CR, LF])"
    by (simp add: headless_file_def rewardsPathToFile_def os_path_join_def)
  have "csvToRewardsLists decimal_of toBase18_spec ''d'' headless_file =
      (case rows_loop decimal_of toBase18_spec 1
              (drop 1 [[''0xA'', ''1.5''], [''0xB'', ''2'']]) ([], [], []) of
         Inl e \<Rightarrow> Inl e
       | Inr out \<Rightarrow> (case None of Some e \<Rightarrow> Inl e | None \<Rightarrow> Inr out))"
    using csvToRewardsLists_first_row_discarded[of headless_file "''d''" _ _ _ decimal_of
        toBase18_spec, OF stored headless_file_rows]
    by (rule conjunct1)
  then have headless: "csvToRewardsLists decimal_of toBase18_spec ''d'' headless_file =
      Inr ([''0xB''], [2], [2000000000000000000])"
    by (simp add: decimal_of_def toBase18_spec_def round_half_even_def is_digit_def)
  have stored_header: "header_only_file (rewardsPathToFile ''d'') =
      Some (''address,value'' @ [CR, LF])"
    by (simp add: header_only_file_def rewardsPathToFile_def os_path_join_def)
  have rows_header: "csv_reader (file_lines (''address,value'' @ [CR, LF])) =
      ([[''address'', ''value'']], None)"
    by (simp add: run_defs)
  have "length [[''address'', ''value'']] \<le> 1 \<and> (None :: error option) = None \<longrightarrow>
      csvToRewardsLists decimal_of toBase18_spec ''d'' header_only_file = Inr ([], [], [])"
    using csvToRewardsLists_first_row_discarded[of header_only_file "''d''" _ _ _ decimal_of
        toBase18_spec, OF stored_header rows_header]
    by (rule conjunct1[OF conjunct2])
  then have header: "csvToRewardsLists decimal_of toBase18_spec ''d'' header_only_file =
      Inr ([], [], [])"
    by simp
  have stored_empty: "empty_file (rewardsPathToFile ''d'') = Some []"
    by (simp add: empty_file_def rewardsPathToFile_def os_path_join_def)
  have rows_empty: "csv_reader (file_lines []) = ([], None)"
    by (simp add: run_defs)
  have "length ([] :: string list list) \<le> 1 \<and> (None :: error option) = None \<longrightarrow>
      csvToRewardsLists decimal_of toBase18_spec ''d'' empty_file = Inr ([], [], [])"
    using csvToRewardsLists_first_row_discarded[of empty_file "''d''" _ _ _ decimal_of
        toBase18_spec, OF stored_empty rows_empty]
    by (rule conjunct1[OF conjunct2])
  then have empty: "csvToRewardsLists decimal_of toBase18_spec ''d'' empty_file = Inr ([], [], [])"
    by simp
  from stored headless_file_rows headless rows_header header rows_empty empty
  show ?thesis by (intro conjI)
qed

subsection \<open>Repeated addresses are not detected\<close>




section \<open>Properties of the block sampler\<close>

text \<open>
  Drawing \<open>k\<close> heights from a pool of distinct heights that holds at least \<open>k\<close> gives
  \<open>k\<close> distinct heights of the pool, whatever the randomness source answers.
\<close>

lemma draw_props:
  "k \<le> length pool \<Longrightarrow> distinct pool \<Longrightarrow>
   length (draw rnd i pool k) = k \<and> distinct (draw rnd i pool k) \<and>
   set (draw rnd i pool k) \<subseteq> set pool"
proof (induction k arbitrary: i pool)
  case 0
  then show ?case by simp
next
  case (Suc k)
  then have ne: "pool \<noteq> []" by auto
  define j where "j = rnd i mod length pool"
  define rest where "rest = take j pool @ drop (Suc j) pool"
  have j: "j < length pool" using ne by (simp add: j_def)
  have split: "pool = take j pool @ pool ! j # drop (Suc j) pool"
    using j by (rule id_take_nth_drop)
  have "distinct (take j pool @ pool ! j # drop (Suc j) pool)"
    using Suc.prems(2) split by simp
  then have d: "distinct rest" and notin: "pool ! j \<notin> set rest"
    by (auto simp: rest_def)
  have sub: "set rest \<subseteq> set pool"
    unfolding rest_def using set_take_subset[of j pool] set_drop_subset[of "Suc j" pool] by auto
  have len: "k \<le> length rest"
    using Suc.prems(1) j by (simp add: rest_def)
  from Suc.IH[OF len d, of "Suc i"]
  have ih: "length (draw rnd (Suc i) rest k) = k" "distinct (draw rnd (Suc i) rest k)"
      "set (draw rnd (Suc i) rest k) \<subseteq> set rest"
    by simp_all
  have unfold: "draw rnd i pool (Suc k) = pool ! j # draw rnd (Suc i) rest k"
    using ne by (simp add: j_def rest_def Let_def)
  show ?case
    unfolding unfold using ih notin sub j by (auto simp: nth_mem)
qed


lemma getBlocks_sampled:
  assumes "0 < n" and "n < fin - st + 1"
  shows "length (getBlocks rnd \<lparr>br_st = st, br_fin = fin, br_num_samples = n\<rparr>) = nat n \<and>
         distinct (getBlocks rnd \<lparr>br_st = st, br_fin = fin, br_num_samples = n\<rparr>) \<and>
         set (getBlocks rnd \<lparr>br_st = st, br_fin = fin, br_num_samples = n\<rparr>) \<subseteq> {st..fin} \<and>
         sorted (getBlocks rnd \<lparr>br_st = st, br_fin = fin, br_num_samples = n\<rparr>)"
proof -
  have eq: "getBlocks rnd \<lparr>br_st = st, br_fin = fin, br_num_samples = n\<rparr> =
      sort (draw rnd 0 [st..fin] (nat n))"
    using assms by (simp add: getBlocks_def)
  have "nat n \<le> length [st..fin]" using assms by simp
  from draw_props[OF this distinct_upto, of rnd 0]
  show ?thesis unfolding eq by simp
qed

text \<open>
  Claim C2. For a start that is not negative and an end not before it: a sample
  count of at least the number of heights gives the whole interval, every height
  from start to end in ascending order; when start and end coincide, any count of at
  least one gives that one height; and a count of zero gives the empty sequence.
\<close>

theorem getBlocks_full_interval:
  assumes "0 \<le> st" and "st \<le> fin"
  shows "(fin - st + 1 \<le> num_samples \<longrightarrow> sample_blocks rnd st fin num_samples = Inr [st..fin]) \<and>
         (st = fin \<and> 1 \<le> num_samples \<longrightarrow> sample_blocks rnd st fin num_samples = Inr [st]) \<and>
         sample_blocks rnd st fin 0 = Inr [] \<and>
         sorted [st..fin] \<and> distinct [st..fin] \<and> set [st..fin] = {b. st \<le> b \<and> b \<le> fin}"
  using assms by (auto simp: sample_blocks_def BlockRange_def getBlocks_def)

theorem getBlocks_full_interval_witness:
  "(0::int) \<le> 0 \<and> (0::int) \<le> 3 \<and> (3::int) - 0 + 1 \<le> 10 \<and>
   sample_blocks counting 0 3 10 = Inr [0, 1, 2, 3] \<and>
   sample_blocks counting 10 10 1 = Inr [10] \<and>
   sample_blocks counting 10 20 0 = Inr []"
proof -
  have "sample_blocks counting 0 3 10 = Inr [0..3]"
    using getBlocks_full_interval[of 0 3 10 counting] by simp
  moreover have "[0..3] = [0, 1, 2, 3::int]" by (simp add: upto.simps)
  moreover have "sample_blocks counting 10 10 1 = Inr [10]"
    using getBlocks_full_interval[of 10 10 1 counting] by simp
  moreover have "sample_blocks counting 10 20 0 = Inr []"
    using getBlocks_full_interval[of 10 20 0 counting] by simp
  ultimately show ?thesis by simp
qed

text \<open>
  Claim C4. For a valid range and a sample count above zero and below the number of
  heights, and for every randomness source, \<open>getBlocks\<close> returns exactly that many
  heights, pairwise distinct, each within the closed interval, in ascending order.
\<close>

theorem getBlocks_random_sample:
  assumes "0 \<le> st" and "st \<le> fin" and "0 < num_samples" and "num_samples < fin - st + 1"
  shows "\<exists>blocks. sample_blocks rnd st fin num_samples = Inr blocks \<and>
           length blocks = nat num_samples \<and> distinct blocks \<and>
           (\<forall>b \<in> set blocks. st \<le> b \<and> b \<le> fin) \<and> sorted blocks"
proof -
  have "sample_blocks rnd st fin num_samples =
      Inr (getBlocks rnd \<lparr>br_st = st, br_fin = fin, br_num_samples = num_samples\<rparr>)"
    using assms by (simp add: sample_blocks_def BlockRange_def)
  with getBlocks_sampled[OF assms(3,4), of rnd] show ?thesis by auto
qed

lemma sample_10_20_3: "sample_blocks counting 10 20 3 = Inr [10, 13, 20]"
  by code_simp

theorem getBlocks_random_sample_witness:
  "(0::int) \<le> 10 \<and> (10::int) \<le> 20 \<and> (0::int) < 3 \<and> (3::int) < 20 - 10 + 1 \<and>
   sample_blocks counting 10 20 3 = Inr [10, 13, 20] \<and>
   length [10, 13, 20::int] = nat 3 \<and> distinct [10, 13, 20::int] \<and> sorted [10, 13, 20::int]"
proof -
  from getBlocks_random_sample[of 10 20 3 counting]
  obtain blocks where "sample_blocks counting 10 20 3 = Inr blocks"
    and "length blocks = nat 3" and "distinct blocks" and "sorted blocks"
    by auto
  then show ?thesis by (simp add: sample_10_20_3)
qed

text \<open>
  Claim C3 says that an end before the start raises \<open>InvalidRangeError\<close> and that a
  negative argument raises \<open>InvalidArgumentError\<close>. Both cannot hold where an end
  before the start is also negative: the constructor raises one exception, and for
  \<open>BlockRange(1, -1, 5)\<close> it is \<open>InvalidArgumentError\<close>.
\<close>

theorem BlockRange_overlap_counterexample:
  "(-1::int) < 1 \<and> BlockRange 1 (-1) 5 = Inl InvalidArgumentError \<and>
   BlockRange 1 (-1) 5 \<noteq> Inl InvalidRangeError"
  by (simp add: BlockRange_def)

text \<open>
  Claim C3, amended. Any negative argument raises \<open>InvalidArgumentError\<close>; with no
  negative argument, an end before the start raises \<open>InvalidRangeError\<close>. Either
  way the constructor returns no range, so nothing is sampled and no blocks are
  returned; a range that is constructed is valid.
\<close>

theorem BlockRange_validation:
  "(st < 0 \<or> fin < 0 \<or> num_samples < 0 \<longrightarrow>
      BlockRange st fin num_samples = Inl InvalidArgumentError \<and>
      sample_blocks rnd st fin num_samples = Inl InvalidArgumentError) \<and>
   (0 \<le> st \<and> 0 \<le> fin \<and> 0 \<le> num_samples \<and> fin < st \<longrightarrow>
      BlockRange st fin num_samples = Inl InvalidRangeError \<and>
      sample_blocks rnd st fin num_samples = Inl InvalidRangeError) \<and>
   (\<forall>r. BlockRange st fin num_samples = Inr r \<longrightarrow>
      0 \<le> st \<and> st \<le> fin \<and> 0 \<le> num_samples \<and>
      r = \<lparr>br_st = st, br_fin = fin, br_num_samples = num_samples\<rparr>)"
  by (auto simp: BlockRange_def sample_blocks_def)

theorem BlockRange_validation_witness:
  "BlockRange 20 10 5 = Inl InvalidRangeError \<and> sample_blocks counting 20 10 5 = Inl InvalidRangeError \<and>
   BlockRange (-1) 10 5 = Inl InvalidArgumentError \<and>
   BlockRange 1 (-1) 5 = Inl InvalidArgumentError \<and>
   BlockRange 1 10 (-5) = Inl InvalidArgumentError \<and>
   sample_blocks counting 1 10 (-5) = Inl InvalidArgumentError"
  using BlockRange_validation[of 20 10 5 counting] BlockRange_validation[of "-1" 10 5 counting]
    BlockRange_validation[of 1 "-1" 5 counting] BlockRange_validation[of 1 10 "-5" counting]
  by simp

section \<open>Writing a rewards file and reading it back\<close>

text \<open>
  From here on the reader's step function is unfolded only where a proof asks for it.
\<close>

declare parse_process_char.simps [simp del]




subsection \<open>Single steps of the reader\<close>















subsection \<open>Reading what the writer wrote\<close>










subsection \<open>Universal newlines on a written file\<close>








subsection \<open>From characters back to lines\<close>



subsection \<open>The rewards file\<close>





subsection \<open>The two files, run\<close>







end
